theory Spec2Isabelle
  imports
    Main
    "HOL-Library.Sublist"
    "HOL-Library.Char_ord"
    "HOL-Library.List_Lexorder"
    "HOL-Library.Product_Lexorder"
begin

section \<open>Python strings\<close>

text \<open>
  A Python \<open>str\<close> is modelled as a \<open>string\<close>, the list of the bytes of its UTF-8
  encoding. Every pattern the program searches for (\<open>'/l2'\<close>, \<open>'-'\<close>, a newline) is ASCII,
  and an ASCII byte never occurs inside the encoding of another code point, so searching,
  splitting and replacing on the bytes agree with Python's operations on code points. The
  order of the encodings is the order of the code points, which is how Python compares
  two strings.
\<close>

text \<open>\<open>s.startswith(p)\<close> and \<open>s.endswith(p)\<close>.\<close>

definition startswith :: "string \<Rightarrow> string \<Rightarrow> bool" where
  "startswith s p = prefix p s"

definition endswith :: "string \<Rightarrow> string \<Rightarrow> bool" where
  "endswith s p = suffix p s"

text \<open>\<open>p in s\<close>: the string \<open>p\<close> occurs somewhere in \<open>s\<close>.\<close>

fun occurs :: "string \<Rightarrow> string \<Rightarrow> bool" where
  "occurs p [] = (p = [])"
| "occurs p (c # cs) = (prefix p (c # cs) \<or> occurs p cs)"

text \<open>
  \<open>s.replace(old, new)\<close>: every occurrence of \<open>old\<close> is replaced, the occurrences being
  found from left to right and not overlapping. With an empty \<open>old\<close> Python puts \<open>new\<close> in
  front of every character and at the end.
\<close>

function replace_str :: "string \<Rightarrow> string \<Rightarrow> string \<Rightarrow> string" where
  "replace_str old new s =
     (if old = [] then new @ concat (map (\<lambda>c. c # new) s)
      else if s = [] then []
      else if prefix old s then new @ replace_str old new (drop (length old) s)
      else hd s # replace_str old new (tl s))"
  by pat_completeness auto
termination
  by (relation "measure (\<lambda>(old, new, s). length s)") auto

text \<open>
  \<open>s.split(sep)\<close> for a separator of one character: the pieces between the separators, in
  order; the result is never empty.
\<close>

fun split_str :: "char \<Rightarrow> string \<Rightarrow> string list" where
  "split_str sep [] = [[]]"
| "split_str sep (c # cs) =
     (if c = sep then [] # split_str sep cs
      else (c # hd (split_str sep cs)) # tl (split_str sep cs))"

section \<open>The fetcher's pure helpers\<close>

text \<open>
  \<open>PayCheckFetcher._transform_download_url\<close> and \<open>PayCheckFetcher._expected_file_name\<close>
  (an Isabelle name cannot start with an underscore).
\<close>

definition transform_download_url :: "string \<Rightarrow> string" where
  "transform_download_url url =
     (if \<not> startswith url ''/l2'' then url
      else replace_str ''/l2'' ''https://my.adp.com'' url)"

definition expected_file_name :: "string \<Rightarrow> string" where
  "expected_file_name date = date @ ''.pdf''"

text \<open>
  \<open>str(n)\<close> for a Python integer, as \<open>'{}'.format(n)\<close> and the query string of a request
  render it: the decimal digits, with a minus sign in front of a negative number.
\<close>

fun digits_of_nat :: "nat \<Rightarrow> string" where
  "digits_of_nat n =
     (if n < 10 then [''0123456789'' ! n]
      else digits_of_nat (n div 10) @ [''0123456789'' ! (n mod 10)])"

declare digits_of_nat.simps [simp del]

definition str_int :: "int \<Rightarrow> string" where
  "str_int i = (if i < 0 then CHR ''-'' # digits_of_nat (nat (- i)) else digits_of_nat (nat i))"

section \<open>The world outside the program\<close>

text \<open>
  What the program reads and changes: the files (a map from a path, as the program
  writes it, to the content of the file there), the lines printed on the console, the
  number of \<open>requests.Session\<close> objects created, and the HTTP requests issued, in order.
  Writing a file always succeeds in this model.
\<close>

datatype request =
    Post string "(string \<times> string) list"
  | Get string "(string \<times> string) list"

text \<open>
  A response: its status, its body as \<open>response.text\<close> decodes it (the field cannot be
  named \<open>text\<close> here) and its body as \<open>response.raw\<close> streams it.
\<close>

record response =
  status_code :: int
  text_body :: string
  raw :: string

record world =
  files :: "string \<rightharpoonup> string"
  stdout :: "string list"
  sessions :: nat
  network :: "request list"

datatype json =
    JNull
  | JBool bool
  | JNumber string
  | JString string
  | JArray "json list"
  | JObject "(string \<times> json) list"

text \<open>
  What the program cannot decide itself: the answer of the remote side to a request,
  given the requests before it (\<open>None\<close> is a failure of the network, which \<open>requests\<close>
  raises as an exception); \<open>json.loads\<close> (\<open>None\<close> where it raises); and the first
  component of \<open>locale.getdefaultlocale()\<close>.
\<close>

record env =
  respond :: "request list \<Rightarrow> request \<Rightarrow> response option"
  json_loads :: "string \<Rightarrow> json option"
  getdefaultlocale :: "string option"

datatype error = ConnectionError | JSONDecodeError | KeyError | TypeError | ValueError

text \<open>
  A call that may raise returns the exception on the left or its value on the right,
  together with the world it leaves behind: what was printed, written and requested
  before an exception stays so.
\<close>

type_synonym 'a result = "(error + 'a) \<times> world"

definition and_then :: "'a result \<Rightarrow> ('a \<Rightarrow> world \<Rightarrow> 'b result) \<Rightarrow> 'b result" where
  "and_then r k = (case r of (Inl err, w) \<Rightarrow> (Inl err, w) | (Inr a, w) \<Rightarrow> k a w)"

definition os_path_exists :: "world \<Rightarrow> string \<Rightarrow> bool" where
  "os_path_exists w path = (files w path \<noteq> None)"

text \<open>\<open>os.path.join(a, b)\<close> of \<open>posixpath\<close>.\<close>

definition os_path_join :: "string \<Rightarrow> string \<Rightarrow> string" where
  "os_path_join a b =
     (if startswith b ''/'' then b
      else if a = [] \<or> endswith a ''/'' then a @ b
      else a @ ''/'' @ b)"

definition py_print :: "string \<Rightarrow> world \<Rightarrow> world" where
  "py_print line w = w\<lparr>stdout := stdout w @ [line]\<rparr>"

text \<open>\<open>session.post\<close> and \<open>session.get\<close>: the request is issued, then answered.\<close>

definition http :: "env \<Rightarrow> request \<Rightarrow> world \<Rightarrow> response result" where
  "http e req w =
     (case respond e (network w) req of
        None \<Rightarrow> Inl ConnectionError
      | Some resp \<Rightarrow> Inr resp,
      w\<lparr>network := network w @ [req]\<rparr>)"

text \<open>\<open>v[key]\<close> with a string key, and \<open>for x in v\<close>, on a value that \<open>json.loads\<close> returned.\<close>

fun subscript :: "json \<Rightarrow> string \<Rightarrow> error + json" where
  "subscript (JObject kvs) key =
     (case map_of kvs key of None \<Rightarrow> Inl KeyError | Some v \<Rightarrow> Inr v)"
| "subscript _ key = Inl TypeError"

fun iterate :: "json \<Rightarrow> error + json list" where
  "iterate (JArray xs) = Inr xs"
| "iterate (JObject kvs) = Inr (map (\<lambda>kv. JString (fst kv)) kvs)"
| "iterate (JString s) = Inr (map (\<lambda>c. JString [c]) s)"
| "iterate _ = Inl TypeError"

text \<open>\<open>d[k] = v\<close> on a dict, which keeps its keys in the order of their first insertion.\<close>

fun dict_set :: "('k \<times> 'v) list \<Rightarrow> 'k \<Rightarrow> 'v \<Rightarrow> ('k \<times> 'v) list" where
  "dict_set [] k v = [(k, v)]"
| "dict_set ((k', v') # kvs) k v =
     (if k' = k then (k', v) # kvs else (k', v') # dict_set kvs k v)"

section \<open>PayCheckFetcher\<close>

text \<open>
  The object's fields. The session belongs to the fetcher for the whole run; of the
  session, the cookies that \<open>get_uid\<close> puts into its jar are kept here. The cookies the
  remote side sets are its own state: \<open>respond\<close> sees the requests made so far.
\<close>

record fetcher =
  username :: string
  password :: string
  cookies :: "string \<rightharpoonup> json"
  paystub_url_by_date :: "(string \<times> string) list"

definition LOGIN_URL :: string where
  "LOGIN_URL = ''https://agateway.adp.com/siteminderagent/forms/login.fcc''"

definition LANDING_URL :: string where
  "LANDING_URL = ''https://my.adp.com/static/redbox/''"

definition UID_LOOKUP_URL :: string where
  "UID_LOOKUP_URL = ''https://my.adp.com/redboxapi/identity/v1/self''"

definition PAYSTUB_LIST_URL :: string where
  "PAYSTUB_LIST_URL = ''https://my.adp.com/v1_0/O/A/payStatements''"

text \<open>\<open>PayCheckFetcher(username, password, session)\<close>, on a session just created.\<close>

definition PayCheckFetcher :: "string \<Rightarrow> string \<Rightarrow> fetcher" where
  "PayCheckFetcher u p =
     \<lparr>username = u, password = p, cookies = Map.empty, paystub_url_by_date = []\<rparr>"

definition log_in :: "env \<Rightarrow> fetcher \<Rightarrow> world \<Rightarrow> fetcher result" where
  "log_in e self w =
     (let req_data = [(''user'', username self), (''password'', password self),
                      (''target'', LANDING_URL)]
      in and_then (http e (Post LOGIN_URL req_data) w) (\<lambda>_ w'. (Inr self, w')))"

definition get_all_the_cookies :: "env \<Rightarrow> fetcher \<Rightarrow> world \<Rightarrow> fetcher result" where
  "get_all_the_cookies e self w =
     and_then (http e (Get LANDING_URL []) w) (\<lambda>_ w'. (Inr self, w'))"

definition get_uid :: "env \<Rightarrow> fetcher \<Rightarrow> world \<Rightarrow> fetcher result" where
  "get_uid e self w =
     and_then (http e (Get UID_LOOKUP_URL []) w) (\<lambda>response w'.
       case json_loads e (text_body response) of
         None \<Rightarrow> (Inl JSONDecodeError, w')
       | Some info \<Rightarrow>
           (case subscript info ''associateoid'' of
              Inl err \<Rightarrow> (Inl err, w')
            | Inr oid \<Rightarrow>
                (Inr (self\<lparr>cookies := (cookies self)
                        (''idtoken'' \<mapsto> oid,
                         ''ADPLangLocalCookie'' \<mapsto>
                           (case getdefaultlocale e of None \<Rightarrow> JNull | Some l \<Rightarrow> JString l))\<rparr>),
                 w')))"

text \<open>
  One step of the dict comprehension of \<open>get_paystub_urls\<close>: the key and the value that a
  statement contributes. The mapping holds strings, as every later use of a date
  (\<open>split\<close>) and of a URL (\<open>startswith\<close>) needs. Python would store a \<open>payDate\<close> or
  \<open>href\<close> that is not a string and fail at that later use; the model reports it here, as
  a \<open>TypeError\<close>.
\<close>

definition statement_entry :: "json \<Rightarrow> error + string \<times> string" where
  "statement_entry statement =
     (case subscript statement ''payDate'' of
        Inl err \<Rightarrow> Inl err
      | Inr d \<Rightarrow>
          (case subscript statement ''statementImageUri'' of
             Inl err \<Rightarrow> Inl err
           | Inr uri \<Rightarrow>
               (case subscript uri ''href'' of
                  Inl err \<Rightarrow> Inl err
                | Inr h \<Rightarrow>
                    (case (d, h) of
                       (JString date, JString url) \<Rightarrow> Inr (date, url)
                     | _ \<Rightarrow> Inl TypeError))))"

fun collect_statements ::
  "(string \<times> string) list \<Rightarrow> json list \<Rightarrow> error + (string \<times> string) list" where
  "collect_statements acc [] = Inr acc"
| "collect_statements acc (statement # statements) =
     (case statement_entry statement of
        Inl err \<Rightarrow> Inl err
      | Inr (date, url) \<Rightarrow> collect_statements (dict_set acc date url) statements)"

definition get_paystub_urls ::
  "env \<Rightarrow> fetcher \<Rightarrow> int \<Rightarrow> string \<Rightarrow> world \<Rightarrow> fetcher result" where
  "get_paystub_urls e self limit adjustments w =
     (let payload = [(''adjustments'', adjustments),
                     (''numberoflastpaydates'', str_int limit)]
      in and_then (http e (Get PAYSTUB_LIST_URL payload) w) (\<lambda>response w'.
           case json_loads e (text_body response) of
             None \<Rightarrow> (Inl JSONDecodeError, w')
           | Some info \<Rightarrow>
               (case subscript info ''payStatements'' of
                  Inl err \<Rightarrow> (Inl err, w')
                | Inr listing \<Rightarrow>
                    (case iterate listing of
                       Inl err \<Rightarrow> (Inl err, w')
                     | Inr statements \<Rightarrow>
                         (case collect_statements [] statements of
                            Inl err \<Rightarrow> (Inl err, w')
                          | Inr m \<Rightarrow> (Inr (self\<lparr>paystub_url_by_date := m\<rparr>), w'))))))"

text \<open>
  The loop of \<open>get_needed_paystubs\<close> over the items of the mapping, with \<open>need\<close> as it
  grows, and the method itself, which sorts what the loop collected. Python compares
  the \<open>[date, url]\<close> lists by their first differing element, which is the order of
  pairs here.
\<close>

fun needed_loop ::
  "world \<Rightarrow> (string \<times> string) list \<Rightarrow> (string \<times> string) list \<Rightarrow> (string \<times> string) list" where
  "needed_loop w need [] = need"
| "needed_loop w need ((date, url) # items) =
     (let artifact = expected_file_name date in
      if os_path_exists w artifact then needed_loop w need items
      else
        let year = hd (split_str CHR ''-'' date) in
        if os_path_exists w (os_path_join year artifact) then needed_loop w need items
        else needed_loop w (need @ [(date, url)]) items)"

definition get_needed_paystubs :: "fetcher \<Rightarrow> world \<Rightarrow> (string \<times> string) list" where
  "get_needed_paystubs self w = sort (needed_loop w [] (paystub_url_by_date self))"

definition download_paystub :: "env \<Rightarrow> string \<Rightarrow> string \<Rightarrow> world \<Rightarrow> unit result" where
  "download_paystub e date url w =
     (let url = transform_download_url url
      in and_then (http e (Get url []) w) (\<lambda>response w'.
           if status_code response \<noteq> 200 then
             (Inr (),
              py_print (''Got back '' @ str_int (status_code response) @
                        '' when trying to fetch '' @ date @ '' at '' @ url) w')
           else
             let out_f_name = expected_file_name date
             in (Inr (),
                 py_print (''Downloaded '' @ out_f_name)
                   (w'\<lparr>files := (files w')(out_f_name \<mapsto> raw response)\<rparr>))))"

text \<open>The loop of \<open>download_needed\<close> over the needed list.\<close>

fun download_each :: "env \<Rightarrow> (string \<times> string) list \<Rightarrow> world \<Rightarrow> unit result" where
  "download_each e [] w = (Inr (), w)"
| "download_each e ((date, url) # rest) w =
     and_then (download_paystub e date url w) (\<lambda>_ w'. download_each e rest w')"

definition download_needed :: "env \<Rightarrow> fetcher \<Rightarrow> int \<Rightarrow> world \<Rightarrow> fetcher result" where
  "download_needed e self limit w =
     and_then (log_in e self w) (\<lambda>self w.
     and_then (get_all_the_cookies e self w) (\<lambda>self w.
     and_then (get_uid e self w) (\<lambda>self w.
     and_then (get_paystub_urls e self limit ''yes'' w) (\<lambda>self w.
     and_then (download_each e (get_needed_paystubs self w) w) (\<lambda>_ w.
       (Inr self, w))))))"

section \<open>The command line\<close>

text \<open>
  The function \<open>cli\<close>: \<open>os.path.exists(creds)\<close> and \<open>open(creds).read()\<close> are the lookup
  of the path in the files; the slice \<open>[0:2]\<close> takes at most two lines, and unpacking
  them into two names raises \<open>ValueError\<close> unless there are two. The function returns
  \<open>-1\<close> or, at its end, Python's \<open>None\<close>.
\<close>

definition cli :: "env \<Rightarrow> string \<Rightarrow> int \<Rightarrow> world \<Rightarrow> int option result" where
  "cli e creds limit w =
     (case files w creds of
        None \<Rightarrow> (Inr (Some (- 1)), py_print ''Couldn't find creds!'' w)
      | Some content \<Rightarrow>
          (case take 2 (split_str (CHR 0x0A) content) of
             [u, p] \<Rightarrow>
               and_then
                 (download_needed e (PayCheckFetcher u p) limit (w\<lparr>sessions := Suc (sessions w)\<rparr>))
                 (\<lambda>_ w'. (Inr None, w'))
           | _ \<Rightarrow> (Inl ValueError, w)))"


section \<open>Pay dates\<close>

text \<open>
  The keys of the paystub mapping are pay dates written \<open>YYYY-MM-DD\<close>: four digits, a
  hyphen, two digits, a hyphen, two digits.
\<close>

definition is_digit :: "char \<Rightarrow> bool" where
  "is_digit c = (c \<in> set ''0123456789'')"

definition is_pay_date :: "string \<Rightarrow> bool" where
  "is_pay_date d =
     (length d = 10 \<and> list_all is_digit (take 4 d) \<and> d ! 4 = CHR ''-'' \<and>
      list_all is_digit (take 2 (drop 5 d)) \<and> d ! 7 = CHR ''-'' \<and>
      list_all is_digit (drop 8 d))"

text \<open>
  The year, month and day that a pay date denotes, as numbers: the order of these
  triples is the order of the days in the calendar.
\<close>

definition digit_value :: "char \<Rightarrow> nat" where
  "digit_value c = of_char c - 48"

fun number_of :: "string \<Rightarrow> nat" where
  "number_of [] = 0"
| "number_of (c # cs) = digit_value c * 10 ^ length cs + number_of cs"

definition pay_date_ymd :: "string \<Rightarrow> nat \<times> nat \<times> nat" where
  "pay_date_ymd d = (number_of (take 4 d), number_of (take 2 (drop 5 d)), number_of (drop 8 d))"

section \<open>Properties of the string operations\<close>

lemma replace_str_step:
  "old \<noteq> [] \<Longrightarrow> replace_str old new (old @ rest) = new @ replace_str old new rest"
  by (subst replace_str.simps) simp

lemma replace_str_absent:
  "old \<noteq> [] \<Longrightarrow> \<not> occurs old s \<Longrightarrow> replace_str old new s = s"
proof (induction s)
  case Nil
  then show ?case by (subst replace_str.simps) simp
next
  case (Cons c cs)
  then show ?case by (subst replace_str.simps) simp
qed

lemma startswith_append: "startswith s p \<longleftrightarrow> (\<exists>rest. s = p @ rest)"
  by (auto simp: startswith_def prefix_def)

lemma transform_download_url_other:
  "\<not> startswith url ''/l2'' \<Longrightarrow> transform_download_url url = url"
  by (simp add: transform_download_url_def)

lemma transform_download_url_l2:
  "transform_download_url (''/l2'' @ rest) =
     ''https://my.adp.com'' @ replace_str ''/l2'' ''https://my.adp.com'' rest"
  unfolding transform_download_url_def startswith_def
  using replace_str_step[of "''/l2''" "''https://my.adp.com''" rest] by simp


lemma hd_split_str: "hd (split_str sep s) = takeWhile (\<lambda>c. c \<noteq> sep) s"
  by (induction s) auto

section \<open>Properties of pay dates\<close>

lemma pay_date_shape:
  assumes "is_pay_date d"
  shows "\<exists>y1 y2 y3 y4 m1 m2 d1 d2.
           d = [y1, y2, y3, y4, CHR ''-'', m1, m2, CHR ''-'', d1, d2] \<and>
           is_digit y1 \<and> is_digit y2 \<and> is_digit y3 \<and> is_digit y4 \<and>
           is_digit m1 \<and> is_digit m2 \<and> is_digit d1 \<and> is_digit d2"
proof -
  from assms have "length d = 10" by (simp add: is_pay_date_def)
  then obtain a0 a1 a2 a3 a4 a5 a6 a7 a8 a9
    where d: "d = [a0, a1, a2, a3, a4, a5, a6, a7, a8, a9]"
    by (auto simp: numeral_eq_Suc length_Suc_conv)
  with assms show ?thesis by (simp add: is_pay_date_def)
qed

lemma is_digit_not_sep: "is_digit c \<Longrightarrow> c \<noteq> CHR ''-'' \<and> c \<noteq> CHR ''/''"
  by (auto simp: is_digit_def)

text \<open>
  For a pay date the year that the code splits off is the first four characters, and
  \<open>os.path.join\<close> puts one slash between the year and the file name.
\<close>

lemma pay_date_year_path:
  assumes "is_pay_date d"
  shows "os_path_join (hd (split_str CHR ''-'' d)) (expected_file_name d) =
           takeWhile (\<lambda>c. c \<noteq> CHR ''-'') d @ ''/'' @ d @ ''.pdf''"
    and "takeWhile (\<lambda>c. c \<noteq> CHR ''-'') d = take 4 d"
proof -
  from pay_date_shape[OF assms] obtain y1 y2 y3 y4 m1 m2 d1 d2 where
    d: "d = [y1, y2, y3, y4, CHR ''-'', m1, m2, CHR ''-'', d1, d2]"
    and y: "is_digit y1" "is_digit y2" "is_digit y3" "is_digit y4" by blast
  from y have n: "y1 \<noteq> CHR ''-''" "y2 \<noteq> CHR ''-''" "y3 \<noteq> CHR ''-''" "y4 \<noteq> CHR ''-''"
    "y1 \<noteq> CHR ''/''" "y4 \<noteq> CHR ''/''"
    by (simp_all add: is_digit_not_sep)
  show "takeWhile (\<lambda>c. c \<noteq> CHR ''-'') d = take 4 d"
    using n by (simp add: d)
  show "os_path_join (hd (split_str CHR ''-'' d)) (expected_file_name d) =
           takeWhile (\<lambda>c. c \<noteq> CHR ''-'') d @ ''/'' @ d @ ''.pdf''"
    using n by (simp add: d hd_split_str os_path_join_def expected_file_name_def
        startswith_def endswith_def suffix_Cons)
qed

text \<open>
  Two pay dates compare as strings the way their days compare in the calendar.
\<close>

lemma digit_value_less:
  "is_digit c \<Longrightarrow> is_digit c' \<Longrightarrow> (c < c') = (digit_value c < digit_value c')"
  by (auto simp: is_digit_def digit_value_def less_char_def)

lemma digit_value_eq:
  "is_digit c \<Longrightarrow> is_digit c' \<Longrightarrow> (c = c') = (digit_value c = digit_value c')"
  by (auto simp: is_digit_def digit_value_def)

lemma number_of_bound: "list_all is_digit cs \<Longrightarrow> number_of cs < 10 ^ length cs"
proof (induction cs)
  case Nil
  then show ?case by simp
next
  case (Cons c cs)
  let ?k = "(10::nat) ^ length cs"
  from Cons have "digit_value c \<le> 9" by (auto simp: is_digit_def digit_value_def)
  then have "digit_value c * ?k \<le> 9 * ?k" by (rule mult_le_mono1)
  moreover from Cons have "number_of cs < ?k" by simp
  ultimately have "digit_value c * ?k + number_of cs < 9 * ?k + ?k" by linarith
  then show ?case by simp
qed

lemma number_of_less:
  assumes "length xs = length ys" and "list_all is_digit xs" and "list_all is_digit ys"
  shows "(xs < ys) = (number_of xs < number_of ys)"
  using assms
proof (induction xs ys rule: list_induct2)
  case Nil
  then show ?case by simp
next
  case (Cons x xs y ys)
  let ?k = "(10::nat) ^ length ys"
  from Cons have dx: "is_digit x" and dy: "is_digit y"
    and bx: "number_of xs < ?k" and "by": "number_of ys < ?k"
    and ih: "(xs < ys) = (number_of xs < number_of ys)"
    using number_of_bound[of xs] number_of_bound[of ys] by simp_all
  consider "digit_value x < digit_value y" | "digit_value y < digit_value x"
    | "digit_value x = digit_value y" by linarith
  then show ?case
  proof cases
    case 1
    then have "Suc (digit_value x) * ?k \<le> digit_value y * ?k"
      by (intro mult_le_mono1) simp
    then have "number_of (x # xs) < number_of (y # ys)"
      using bx Cons.hyps by simp
    moreover have "x < y" using 1 dx dy by (simp add: digit_value_less)
    ultimately show ?thesis by simp
  next
    case 2
    then have "Suc (digit_value y) * ?k \<le> digit_value x * ?k"
      by (intro mult_le_mono1) simp
    then have "\<not> number_of (x # xs) < number_of (y # ys)"
      using "by" Cons.hyps by simp
    moreover have "y < x" using 2 dx dy by (simp add: digit_value_less)
    ultimately show ?thesis by auto
  next
    case 3
    then have "x = y" using dx dy by (simp add: digit_value_eq)
    then show ?thesis using ih Cons.hyps by simp
  qed
qed

lemma number_of_inj:
  assumes "length xs = length ys" and "list_all is_digit xs" and "list_all is_digit ys"
  shows "(xs = ys) = (number_of xs = number_of ys)"
  using number_of_less[OF assms] number_of_less[OF assms(1)[symmetric] assms(3) assms(2)]
  by (metis less_irrefl linorder_neq_iff)

lemma less_append_same_length:
  fixes xs ys :: "'a::linorder list"
  shows "length xs = length ys \<Longrightarrow> (xs @ r < ys @ s) = (xs < ys \<or> xs = ys \<and> r < s)"
  by (induction xs ys rule: list_induct2) auto

lemma pay_date_parts:
  assumes "is_pay_date d"
  shows "\<exists>Y M D. d = Y @ CHR ''-'' # M @ CHR ''-'' # D \<and>
           length Y = 4 \<and> length M = 2 \<and> length D = 2 \<and>
           list_all is_digit Y \<and> list_all is_digit M \<and> list_all is_digit D \<and>
           pay_date_ymd d = (number_of Y, number_of M, number_of D)"
proof -
  from pay_date_shape[OF assms] obtain y1 y2 y3 y4 m1 m2 d1 d2 where
    "d = [y1, y2, y3, y4, CHR ''-'', m1, m2, CHR ''-'', d1, d2]"
    "is_digit y1" "is_digit y2" "is_digit y3" "is_digit y4"
    "is_digit m1" "is_digit m2" "is_digit d1" "is_digit d2" by blast
  then have "d = [y1, y2, y3, y4] @ CHR ''-'' # [m1, m2] @ CHR ''-'' # [d1, d2] \<and>
           length [y1, y2, y3, y4] = 4 \<and> length [m1, m2] = 2 \<and> length [d1, d2] = 2 \<and>
           list_all is_digit [y1, y2, y3, y4] \<and> list_all is_digit [m1, m2] \<and>
           list_all is_digit [d1, d2] \<and>
           pay_date_ymd d =
             (number_of [y1, y2, y3, y4], number_of [m1, m2], number_of [d1, d2])"
    by (simp add: pay_date_ymd_def)
  then show ?thesis by blast
qed

lemma pay_date_less:
  assumes "is_pay_date a" and "is_pay_date b"
  shows "(a < b) = (pay_date_ymd a < pay_date_ymd b)"
proof -
  from pay_date_parts[OF assms(1)] obtain Y M D where
    a: "a = Y @ CHR ''-'' # M @ CHR ''-'' # D"
    and la: "length Y = 4" "length M = 2" "length D = 2"
    and da: "list_all is_digit Y" "list_all is_digit M" "list_all is_digit D"
    and va: "pay_date_ymd a = (number_of Y, number_of M, number_of D)" by blast
  from pay_date_parts[OF assms(2)] obtain Y' M' D' where
    b: "b = Y' @ CHR ''-'' # M' @ CHR ''-'' # D'"
    and lb: "length Y' = 4" "length M' = 2" "length D' = 2"
    and db: "list_all is_digit Y'" "list_all is_digit M'" "list_all is_digit D'"
    and vb: "pay_date_ymd b = (number_of Y', number_of M', number_of D')" by blast
  have Y: "(Y < Y') = (number_of Y < number_of Y')"
    and Ye: "(Y = Y') = (number_of Y = number_of Y')"
    using la lb da db by (simp_all add: number_of_less number_of_inj)
  have M: "(M < M') = (number_of M < number_of M')"
    and Me: "(M = M') = (number_of M = number_of M')"
    using la lb da db by (simp_all add: number_of_less number_of_inj)
  have D: "(D < D') = (number_of D < number_of D')"
    using la lb da db by (simp add: number_of_less)
  have "(a < b) = (Y < Y' \<or> Y = Y' \<and> CHR ''-'' # M @ CHR ''-'' # D < CHR ''-'' # M' @ CHR ''-'' # D')"
    unfolding a b using la lb by (intro less_append_same_length) simp
  also have "(CHR ''-'' # M @ CHR ''-'' # D < CHR ''-'' # M' @ CHR ''-'' # D') =
             (M @ CHR ''-'' # D < M' @ CHR ''-'' # D')"
    by simp
  also have "(M @ CHR ''-'' # D < M' @ CHR ''-'' # D') =
             (M < M' \<or> M = M' \<and> CHR ''-'' # D < CHR ''-'' # D')"
    using la lb by (intro less_append_same_length) simp
  also have "(CHR ''-'' # D < CHR ''-'' # D') = (D < D')"
    by simp
  finally have "(a < b) = (Y < Y' \<or> Y = Y' \<and> (M < M' \<or> M = M' \<and> D < D'))" .
  also have "\<dots> = (pay_date_ymd a < pay_date_ymd b)"
    unfolding Y Ye M Me D va vb by (auto simp: less_prod_def)
  finally show ?thesis .
qed

lemma pay_date_order:
  assumes "is_pay_date a" and "is_pay_date b"
  shows "(a \<le> b) = (pay_date_ymd a \<le> pay_date_ymd b)"
  using pay_date_less[OF assms(2) assms(1)] by (simp add: not_less[symmetric])

section \<open>Properties of the requests\<close>

lemma http_Some:
  "respond e (network w) req = Some resp \<Longrightarrow>
   http e req w = (Inr resp, w\<lparr>network := network w @ [req]\<rparr>)"
  by (simp add: http_def)









section \<open>Properties of the needed list\<close>

lemma needed_loop_filter:
  "needed_loop w need items =
     need @ filter (\<lambda>(date, url).
               \<not> os_path_exists w (expected_file_name date) \<and>
               \<not> os_path_exists w (os_path_join (hd (split_str CHR ''-'' date))
                                      (expected_file_name date))) items"
  by (induction w need items rule: needed_loop.induct) (simp_all add: Let_def)

lemma sorted_map_fst:
  fixes xs :: "('a::linorder \<times> 'b::linorder) list"
  shows "sorted xs \<Longrightarrow> sorted (map fst xs)"
  by (induction xs) (auto simp: less_eq_prod_def)

lemma get_needed_paystubs_subset:
  "set (get_needed_paystubs self w) \<subseteq> set (paystub_url_by_date self)"
  by (auto simp: get_needed_paystubs_def needed_loop_filter)

text \<open>
  When the keys of the mapping are pay dates, the needed list is in the order of the
  calendar.
\<close>

lemma get_needed_paystubs_chronological:
  assumes "\<forall>date \<in> fst ` set (paystub_url_by_date self). is_pay_date date"
  shows "sorted (map (\<lambda>item. pay_date_ymd (fst item)) (get_needed_paystubs self w))"
proof -
  have "sorted (map fst (get_needed_paystubs self w))"
    by (simp add: get_needed_paystubs_def sorted_map_fst)
  then have "sorted_wrt (\<lambda>x y. fst x \<le> fst y) (get_needed_paystubs self w)"
    by (simp add: sorted_map)
  then have "sorted_wrt (\<lambda>x y. pay_date_ymd (fst x) \<le> pay_date_ymd (fst y))
               (get_needed_paystubs self w)"
  proof (rule sorted_wrt_mono_rel[rotated])
    fix x y
    assume "x \<in> set (get_needed_paystubs self w)" and "y \<in> set (get_needed_paystubs self w)"
      and le: "fst x \<le> fst y"
    then have "fst x \<in> fst ` set (paystub_url_by_date self)"
      and "fst y \<in> fst ` set (paystub_url_by_date self)"
      using get_needed_paystubs_subset[of self w] by auto
    with assms have "is_pay_date (fst x)" and "is_pay_date (fst y)" by blast+
    then show "pay_date_ymd (fst x) \<le> pay_date_ymd (fst y)"
      using le by (simp add: pay_date_order)
  qed
  then show ?thesis by (simp add: sorted_map)
qed

section \<open>The claims\<close>

text \<open>
  C1. \<open>get_needed_paystubs\<close> returns exactly the pairs of the mapping for which neither
  \<open><date>.pdf\<close> nor the path that joins the year and \<open><date>.pdf\<close> exists, the year
  being the part of the date before the first hyphen: a date with a local file is left
  out, every other pair is in the list. For a pay date the year is its first four
  characters and the joined path is \<open><year>/<date>.pdf\<close>.
\<close>

theorem get_needed_paystubs_excludes_local:
  "set (get_needed_paystubs self w) =
     {(date, url). (date, url) \<in> set (paystub_url_by_date self) \<and>
        \<not> os_path_exists w (date @ ''.pdf'') \<and>
        \<not> os_path_exists w
            (os_path_join (takeWhile (\<lambda>c. c \<noteq> CHR ''-'') date) (date @ ''.pdf''))} \<and>
   (is_pay_date d \<longrightarrow>
      takeWhile (\<lambda>c. c \<noteq> CHR ''-'') d = take 4 d \<and>
      os_path_join (takeWhile (\<lambda>c. c \<noteq> CHR ''-'') d) (d @ ''.pdf'') =
        take 4 d @ ''/'' @ d @ ''.pdf'')"
proof (intro conjI impI)
  show "set (get_needed_paystubs self w) =
     {(date, url). (date, url) \<in> set (paystub_url_by_date self) \<and>
        \<not> os_path_exists w (date @ ''.pdf'') \<and>
        \<not> os_path_exists w
            (os_path_join (takeWhile (\<lambda>c. c \<noteq> CHR ''-'') date) (date @ ''.pdf''))}"
    by (auto simp: get_needed_paystubs_def needed_loop_filter hd_split_str
          expected_file_name_def)
next
  assume "is_pay_date d"
  then show "takeWhile (\<lambda>c. c \<noteq> CHR ''-'') d = take 4 d"
    by (rule pay_date_year_path(2))
next
  assume p: "is_pay_date d"
  show "os_path_join (takeWhile (\<lambda>c. c \<noteq> CHR ''-'') d) (d @ ''.pdf'') =
        take 4 d @ ''/'' @ d @ ''.pdf''"
    using pay_date_year_path[OF p] by (simp add: hd_split_str expected_file_name_def)
qed

theorem get_needed_paystubs_excludes_local_witness:
  "is_pay_date ''2023-03-15'' \<and>
   os_path_join (takeWhile (\<lambda>c. c \<noteq> CHR ''-'') ''2023-03-15'') ''2023-03-15.pdf'' =
     ''2023/2023-03-15.pdf'' \<and>
   (''2023-01-15'', ''/l2/doc1'') \<notin> set (get_needed_paystubs
          \<lparr>username = ''u'', password = ''p'', cookies = Map.empty,
           paystub_url_by_date =
             [(''2023-01-15'', ''/l2/doc1''), (''2023-03-15'', ''/l2/doc3''),
              (''2023-02-15'', ''https://my.adp.com/doc2'')]\<rparr>
          \<lparr>files = [''2023-01-15.pdf'' \<mapsto> ''pdf'', ''2023/2023-03-15.pdf'' \<mapsto> ''pdf''],
           stdout = [], sessions = 0, network = []\<rparr>) \<and>
   (''2023-03-15'', ''/l2/doc3'') \<notin> set (get_needed_paystubs
          \<lparr>username = ''u'', password = ''p'', cookies = Map.empty,
           paystub_url_by_date =
             [(''2023-01-15'', ''/l2/doc1''), (''2023-03-15'', ''/l2/doc3''),
              (''2023-02-15'', ''https://my.adp.com/doc2'')]\<rparr>
          \<lparr>files = [''2023-01-15.pdf'' \<mapsto> ''pdf'', ''2023/2023-03-15.pdf'' \<mapsto> ''pdf''],
           stdout = [], sessions = 0, network = []\<rparr>) \<and>
   (''2023-02-15'', ''https://my.adp.com/doc2'') \<in> set (get_needed_paystubs
          \<lparr>username = ''u'', password = ''p'', cookies = Map.empty,
           paystub_url_by_date =
             [(''2023-01-15'', ''/l2/doc1''), (''2023-03-15'', ''/l2/doc3''),
              (''2023-02-15'', ''https://my.adp.com/doc2'')]\<rparr>
          \<lparr>files = [''2023-01-15.pdf'' \<mapsto> ''pdf'', ''2023/2023-03-15.pdf'' \<mapsto> ''pdf''],
           stdout = [], sessions = 0, network = []\<rparr>)"
proof -
  have h: "is_pay_date ''2023-03-15''"
    by (simp add: is_pay_date_def is_digit_def)
  note t = get_needed_paystubs_excludes_local
    [of "\<lparr>username = ''u'', password = ''p'', cookies = Map.empty,
          paystub_url_by_date =
            [(''2023-01-15'', ''/l2/doc1''), (''2023-03-15'', ''/l2/doc3''),
             (''2023-02-15'', ''https://my.adp.com/doc2'')]\<rparr>"
        "\<lparr>files = [''2023-01-15.pdf'' \<mapsto> ''pdf'', ''2023/2023-03-15.pdf'' \<mapsto> ''pdf''],
          stdout = [], sessions = 0, network = []\<rparr>"
        "''2023-03-15''"]
  show ?thesis
    using h t [THEN conjunct2]
    by (simp add: t [THEN conjunct1] os_path_exists_def os_path_join_def startswith_def
          endswith_def suffix_Cons)
qed

text \<open>
  C2, as the code has it. A URL that begins with \<open>/l2\<close> and has no other \<open>/l2\<close> after
  that prefix comes back as \<open>https://my.adp.com\<close> followed by the rest of the URL: the
  prefix is replaced by the host, not kept behind it. A URL that does not begin with
  \<open>/l2\<close> comes back unchanged.
\<close>

theorem transform_download_url_rewrites_prefix:
  "(\<not> occurs ''/l2'' rest \<longrightarrow>
      transform_download_url (''/l2'' @ rest) = ''https://my.adp.com'' @ rest) \<and>
   (\<not> startswith url ''/l2'' \<longrightarrow> transform_download_url url = url)"
proof (intro conjI impI)
  assume "\<not> occurs ''/l2'' rest"
  then have "replace_str ''/l2'' ''https://my.adp.com'' rest = rest"
    by (intro replace_str_absent) simp_all
  then show "transform_download_url (''/l2'' @ rest) = ''https://my.adp.com'' @ rest"
    by (simp only: transform_download_url_l2)
next
  assume "\<not> startswith url ''/l2''"
  then show "transform_download_url url = url"
    by (rule transform_download_url_other)
qed

theorem transform_download_url_rewrites_prefix_witness:
  "\<not> occurs ''/l2'' ''/doc1'' \<and>
   transform_download_url ''/l2/doc1'' = ''https://my.adp.com/doc1'' \<and>
   \<not> startswith ''https://my.adp.com/doc2'' ''/l2'' \<and>
   transform_download_url ''https://my.adp.com/doc2'' = ''https://my.adp.com/doc2''"
  using transform_download_url_rewrites_prefix
          [of "''/doc1''" "''https://my.adp.com/doc2''"]
  by (simp add: startswith_def)

text \<open>
  C2, as the claim has it, fails: \<open>/l2/doc1\<close> becomes \<open>https://my.adp.com/doc1\<close>, not
  \<open>https://my.adp.com/l2/doc1\<close>; and in \<open>/l2/a/l2b\<close> the second \<open>/l2\<close> is rewritten as
  well as the leading one.
\<close>

theorem transform_download_url_drops_prefix:
  "transform_download_url ''/l2/doc1'' = ''https://my.adp.com/doc1'' \<and>
   transform_download_url ''/l2/doc1'' \<noteq> ''https://my.adp.com/l2/doc1'' \<and>
   transform_download_url ''/l2/a/l2b'' = ''https://my.adp.com/ahttps://my.adp.comb''"
  by (simp add: transform_download_url_def startswith_def)

text \<open>
  C3. When the answer to the download has a status other than 200, \<open>download_paystub\<close>
  returns normally; it has issued the one request, written no file, and printed one
  line, which names the status, the date and the URL that was requested (the URL as
  \<open>_transform_download_url\<close> rewrote it). The loop of \<open>download_needed\<close> goes on with the
  remaining items.
\<close>

theorem download_paystub_not_200:
  assumes "respond e (network w) (Get (transform_download_url url) []) = Some resp"
    and "status_code resp \<noteq> 200"
  shows "download_paystub e date url w =
           (Inr (),
            w\<lparr>network := network w @ [Get (transform_download_url url) []],
              stdout := stdout w @
                [''Got back '' @ str_int (status_code resp) @ '' when trying to fetch '' @
                 date @ '' at '' @ transform_download_url url]\<rparr>)
         \<and> files (snd (download_paystub e date url w)) = files w
         \<and> download_each e ((date, url) # rest) w =
             download_each e rest (snd (download_paystub e date url w))"
  using assms
  by (simp add: download_paystub_def http_Some and_then_def py_print_def Let_def)

theorem download_paystub_not_200_witness:
  "download_paystub
     \<lparr>respond = (\<lambda>_ _. Some \<lparr>status_code = 404, text_body = ''Not Found'', raw = ''Not Found''\<rparr>),
      json_loads = (\<lambda>_. None), getdefaultlocale = None\<rparr>
     ''2023-01-15'' ''/l2/doc1''
     \<lparr>files = Map.empty, stdout = [], sessions = 1, network = []\<rparr> =
   (Inr (),
    \<lparr>files = Map.empty,
     stdout = [''Got back 404 when trying to fetch 2023-01-15 at https://my.adp.com/doc1''],
     sessions = 1, network = [Get ''https://my.adp.com/doc1'' []]\<rparr>)"
proof -
  have t: "transform_download_url ''/l2/doc1'' = ''https://my.adp.com/doc1''"
    by (simp add: transform_download_url_def startswith_def)
  have s: "str_int 404 = ''404''"
    by (simp add: str_int_def digits_of_nat.simps)
  show ?thesis
    using download_paystub_not_200
      [of "\<lparr>respond = (\<lambda>_ _. Some \<lparr>status_code = 404, text_body = ''Not Found'',
                                       raw = ''Not Found''\<rparr>),
            json_loads = (\<lambda>_. None), getdefaultlocale = None\<rparr>"
          "\<lparr>files = Map.empty, stdout = [], sessions = 1, network = []\<rparr>"
          "''/l2/doc1''"
          "\<lparr>status_code = 404, text_body = ''Not Found'', raw = ''Not Found''\<rparr>"
          "''2023-01-15''" "[]"]
    by (simp add: t s)
qed

text \<open>
  C4. When the answer to the download has status 200, \<open>download_paystub\<close> returns
  normally, and afterwards the file \<open><date>.pdf\<close> holds the body of the response,
  whatever was at that path before; no other file has changed, and the line
  \<open>Downloaded <date>.pdf\<close> has been printed.
\<close>

theorem download_paystub_200:
  assumes "respond e (network w) (Get (transform_download_url url) []) = Some resp"
    and "status_code resp = 200"
  shows "download_paystub e date url w =
           (Inr (),
            w\<lparr>network := network w @ [Get (transform_download_url url) []],
              files := (files w)(date @ ''.pdf'' \<mapsto> raw resp),
              stdout := stdout w @ [''Downloaded '' @ date @ ''.pdf'']\<rparr>)"
  using assms
  by (simp add: download_paystub_def http_Some and_then_def py_print_def
        expected_file_name_def Let_def)

theorem download_paystub_200_witness:
  "download_paystub
     \<lparr>respond = (\<lambda>_ _. Some \<lparr>status_code = 200, text_body = ''new'', raw = ''new''\<rparr>),
      json_loads = (\<lambda>_. None), getdefaultlocale = None\<rparr>
     ''2023-02-15'' ''https://my.adp.com/doc2''
     \<lparr>files = [''2023-02-15.pdf'' \<mapsto> ''old''], stdout = [], sessions = 1, network = []\<rparr> =
   (Inr (),
    \<lparr>files = [''2023-02-15.pdf'' \<mapsto> ''new''],
     stdout = [''Downloaded 2023-02-15.pdf''],
     sessions = 1, network = [Get ''https://my.adp.com/doc2'' []]\<rparr>)"
proof -
  have t: "transform_download_url ''https://my.adp.com/doc2'' = ''https://my.adp.com/doc2''"
    by (simp add: transform_download_url_def startswith_def)
  show ?thesis
    using download_paystub_200
      [of "\<lparr>respond = (\<lambda>_ _. Some \<lparr>status_code = 200, text_body = ''new'', raw = ''new''\<rparr>),
            json_loads = (\<lambda>_. None), getdefaultlocale = None\<rparr>"
          "\<lparr>files = [''2023-02-15.pdf'' \<mapsto> ''old''], stdout = [], sessions = 1, network = []\<rparr>"
          "''https://my.adp.com/doc2''"
          "\<lparr>status_code = 200, text_body = ''new'', raw = ''new''\<rparr>"
          "''2023-02-15''"]
    by (simp add: t)
qed

text \<open>
  C5. The list that \<open>get_needed_paystubs\<close> returns is sorted, and so are its dates, in
  the order of strings.
\<close>

theorem get_needed_paystubs_sorted:
  "sorted (get_needed_paystubs self w) \<and> sorted (map fst (get_needed_paystubs self w))"
  by (simp add: get_needed_paystubs_def sorted_map_fst)

theorem get_needed_paystubs_sorted_witness:
  "get_needed_paystubs
     \<lparr>username = ''u'', password = ''p'', cookies = Map.empty,
      paystub_url_by_date =
        [(''2023-04-15'', ''/l2/doc4''), (''2023-01-15'', ''/l2/doc1''),
         (''2023-02-15'', ''https://my.adp.com/doc2'')]\<rparr>
     \<lparr>files = [''2023-01-15.pdf'' \<mapsto> ''pdf''], stdout = [], sessions = 0, network = []\<rparr> =
   [(''2023-02-15'', ''https://my.adp.com/doc2''), (''2023-04-15'', ''/l2/doc4'')] \<and>
   sorted (map fst (get_needed_paystubs
     \<lparr>username = ''u'', password = ''p'', cookies = Map.empty,
      paystub_url_by_date =
        [(''2023-04-15'', ''/l2/doc4''), (''2023-01-15'', ''/l2/doc1''),
         (''2023-02-15'', ''https://my.adp.com/doc2'')]\<rparr>
     \<lparr>files = [''2023-01-15.pdf'' \<mapsto> ''pdf''], stdout = [], sessions = 0, network = []\<rparr>))"
proof (rule conjI)
  show "sorted (map fst (get_needed_paystubs
     \<lparr>username = ''u'', password = ''p'', cookies = Map.empty,
      paystub_url_by_date =
        [(''2023-04-15'', ''/l2/doc4''), (''2023-01-15'', ''/l2/doc1''),
         (''2023-02-15'', ''https://my.adp.com/doc2'')]\<rparr>
     \<lparr>files = [''2023-01-15.pdf'' \<mapsto> ''pdf''], stdout = [], sessions = 0, network = []\<rparr>))"
    using get_needed_paystubs_sorted by (rule conjunct2)
qed (simp add: get_needed_paystubs_def os_path_exists_def expected_file_name_def
        os_path_join_def startswith_def endswith_def suffix_Cons less_eq_prod_def Let_def)



text \<open>
  C7. When nothing exists at the credentials path, \<open>cli\<close> prints one line, returns
  \<open>-1\<close>, and leaves everything else as it was: no session created, no request issued.
\<close>

theorem cli_without_credentials:
  assumes "\<not> os_path_exists w creds"
  shows "cli e creds limit w =
           (Inr (Some (- 1)), w\<lparr>stdout := stdout w @ [''Couldn't find creds!'']\<rparr>)
         \<and> (- 1 :: int) \<noteq> 0
         \<and> sessions (snd (cli e creds limit w)) = sessions w
         \<and> network (snd (cli e creds limit w)) = network w"
  using assms by (simp add: cli_def os_path_exists_def py_print_def)

theorem cli_without_credentials_witness:
  "\<not> os_path_exists \<lparr>files = Map.empty, stdout = [], sessions = 0, network = []\<rparr> ''./.adp-pass'' \<and>
   cli \<lparr>respond = (\<lambda>_ _. None), json_loads = (\<lambda>_. None), getdefaultlocale = None\<rparr>
       ''./.adp-pass'' 30 \<lparr>files = Map.empty, stdout = [], sessions = 0, network = []\<rparr> =
     (Inr (Some (- 1)),
      \<lparr>files = Map.empty, stdout = [''Couldn't find creds!''], sessions = 0, network = []\<rparr>)"
proof -
  have h: "\<not> os_path_exists \<lparr>files = Map.empty, stdout = [], sessions = 0, network = []\<rparr>
             ''./.adp-pass''"
    by (simp add: os_path_exists_def)
  show ?thesis
    using h cli_without_credentials [OF h,
        of "\<lparr>respond = (\<lambda>_ _. None), json_loads = (\<lambda>_. None), getdefaultlocale = None\<rparr>" 30]
    by simp
qed



text \<open>
  C9. Applying \<open>_transform_download_url\<close> twice gives what applying it once gives, for
  every URL; and what it makes of a URL that begins with \<open>/l2\<close> does not begin with
  \<open>/l2\<close>.
\<close>

theorem transform_download_url_idempotent:
  "transform_download_url (transform_download_url url) = transform_download_url url \<and>
   (startswith url ''/l2'' \<longrightarrow> \<not> startswith (transform_download_url url) ''/l2'')"
proof (cases "startswith url ''/l2''")
  case True
  then obtain rest where "url = ''/l2'' @ rest"
    by (auto simp: startswith_append)
  then have "transform_download_url url =
      ''https://my.adp.com'' @ replace_str ''/l2'' ''https://my.adp.com'' rest"
    by (simp only: transform_download_url_l2)
  then have "\<not> startswith (transform_download_url url) ''/l2''"
    by (simp add: startswith_def)
  then show ?thesis by (simp add: transform_download_url_other)
next
  case False
  then show ?thesis by (simp add: transform_download_url_other)
qed

theorem transform_download_url_idempotent_witness:
  "startswith ''/l2/doc1'' ''/l2'' \<and>
   \<not> startswith (transform_download_url ''/l2/doc1'') ''/l2'' \<and>
   transform_download_url (transform_download_url ''/l2/doc1'') = ''https://my.adp.com/doc1''"
proof -
  have t: "transform_download_url ''/l2/doc1'' = ''https://my.adp.com/doc1''"
    by (simp add: transform_download_url_def startswith_def)
  have h: "startswith ''/l2/doc1'' ''/l2''"
    by (simp add: startswith_def)
  show ?thesis
    using h t transform_download_url_idempotent [of "''/l2/doc1''"] by simp
qed



end
